theory Spec2Isabelle
  imports Main "HOL-Library.Multiset" "HOL-Library.Sublist"
begin

section \<open>The browser client (script.js)\<close>

text \<open>
  The client keeps one mutable \<open>state\<close> object and drives the conversation from event
  handlers, timers and one awaited provider call per turn. JavaScript runs each handler
  and each continuation after an \<open>await\<close> to completion before the next one starts, so the
  model is a step function on a \<open>world\<close>: the \<open>state\<close> object, the persona table, the
  timers that are set and not yet fired, the provider calls that are awaited and not yet
  settled, and the actions performed on the chat container so far. Wall-clock time is
  not modelled: any pending timer may be the next to fire, whatever \<open>getRandomTime\<close> drew
  for it. The styling of the page and the disabling of its buttons are not modelled
  either: a handler can run whenever its event arrives, and what it does then is decided
  by its own tests of the state.
\<close>

subsection \<open>Strings\<close>

text \<open>
  A JavaScript string is its sequence of UTF-16 code units, each a number from \<open>0\<close> to
  \<open>65535\<close>. \<open>js\<close> turns a literal of ASCII characters into its code units.
\<close>

type_synonym codeUnit = int

type_synonym jsString = "codeUnit list"

definition js :: "string \<Rightarrow> jsString" where
  "js s = map of_char s"

text \<open>\<open>String.prototype.trim\<close> removes the white space and the line terminators of
  ECMAScript from both ends: tab, line feed, vertical tab, form feed, carriage return,
  space, no-break space, U+1680, U+2000 to U+200A, U+2028, U+2029, U+202F, U+205F, U+3000
  and U+FEFF.\<close>

definition isWhite :: "codeUnit \<Rightarrow> bool" where
  "isWhite c =
     (c \<in> set [0x09, 0x0A, 0x0B, 0x0C, 0x0D, 0x20, 0xA0, 0x1680, 0x2028, 0x2029, 0x202F, 0x205F,
                 0x3000, 0xFEFF]
      \<or> (0x2000 \<le> c \<and> c \<le> 0x200A))"

definition trim :: "jsString \<Rightarrow> jsString" where
  "trim s = rev (dropWhile isWhite (rev (dropWhile isWhite s)))"

definition newline :: jsString where
  "newline = [0x0A]"

fun joinWith :: "jsString \<Rightarrow> jsString list \<Rightarrow> jsString" where
  "joinWith sep [] = []"
| "joinWith sep [x] = x"
| "joinWith sep (x # y # ys) = x @ sep @ joinWith sep (y # ys)"

subsection \<open>Plain objects as tables\<close>

text \<open>
  The persona table of the client and the model table of the server are plain objects
  that are read with \<open>table[name]\<close>. The own properties of such an object are a map. A
  name that is not an own property is looked up in \<open>Object.prototype\<close>, which has the
  members listed here, so the lookup yields one of them (a function, or for \<open>__proto__\<close>
  the prototype itself) and not \<open>undefined\<close>. An assignment \<open>table[name] = text\<close> makes
  an own property, except for the name \<open>__proto__\<close>: it goes to the inherited setter, which
  ignores a text.
\<close>

definition objectPrototypeNames :: "jsString list" where
  "objectPrototypeNames =
     [js ''constructor'', js ''__defineGetter__'', js ''__defineSetter__'', js ''hasOwnProperty'',
      js ''__lookupGetter__'', js ''__lookupSetter__'', js ''isPrototypeOf'',
      js ''propertyIsEnumerable'', js ''toString'', js ''valueOf'', js ''__proto__'',
      js ''toLocaleString'']"

datatype 'a property = Own 'a | Inherited jsString | Missing

definition getProperty :: "(jsString \<Rightarrow> 'a option) \<Rightarrow> jsString \<Rightarrow> 'a property" where
  "getProperty table name =
     (case table name of
        Some v \<Rightarrow> Own v
      | None \<Rightarrow> if name \<in> set objectPrototypeNames then Inherited name else Missing)"

definition setProperty ::
  "(jsString \<Rightarrow> jsString option) \<Rightarrow> jsString \<Rightarrow> jsString \<Rightarrow> (jsString \<Rightarrow> jsString option)" where
  "setProperty table name v = (if name = js ''__proto__'' then table else table(name \<mapsto> v))"

subsection \<open>Data\<close>

record message =
  msgSender :: jsString
  msgText :: jsString

record customLlm =
  llmName :: jsString
  llmApiKey :: jsString
  llmEndpoint :: jsString

record state =
  selectedLLMs :: "jsString list"
  topic :: jsString
  isPaused :: bool
  isOngoing :: bool
  conversationHistory :: "message list"
  customLLMs :: "customLlm list"
  speakingOrder :: "jsString list"
  currentSpeakerIndex :: nat
  responseTimeout :: "nat option"
  userCanInteract :: bool
  username :: jsString

text \<open>
  A response timer remembers the speaker and the chat node that shows its thinking
  indicator (the closure of the callback in \<open>continueConversation\<close>); a pace timer is the
  one-second timer set after a reply.
\<close>

datatype timer = ResponseTimer jsString nat | PaceTimer

text \<open>
  The personality that \<open>generateResponse\<close> uses for a participant is a text, or, for a name
  that the persona table inherits and does not own, the inherited member. The request
  to the provider has the personality as its system message, and as its user message
  the prompt: the personality, converted to text, followed by \<open>reqPromptRest\<close>. The text of
  an inherited member is the engine's and is not modelled.
\<close>

datatype persona = PersonaText jsString | PersonaMember jsString

record request =
  reqLlm :: jsString
  reqNode :: nat
  reqPersonality :: persona
  reqPromptRest :: jsString

text \<open>What the awaited \<open>websim.chat.completions.create\<close> does inside the \<open>try\<close> of
  \<open>generateResponse\<close>: it resolves to a completion with a content, or the \<open>try\<close> ends in
  an exception (the call rejects, or the completion has no content to trim).\<close>

datatype provider_result = Completion jsString | Rejected jsString

text \<open>Actions on the page: a node appended by \<open>addMessageToChat\<close> (sender, shown text,
  thinking or not), the text of node \<open>n\<close> replaced by a reply, the container emptied, an
  alert shown. A node is named by its position in this list.\<close>

datatype ui_action =
    AddMessage jsString jsString bool
  | ShowResponse nat jsString
  | ClearChat
  | Alert jsString

record world =
  st :: state
  llmPersonalities :: "jsString \<Rightarrow> jsString option"
  timers :: "(nat \<times> timer) list"
  calls :: "(nat \<times> request) list"
  nextId :: nat
  ui :: "ui_action list"

subsection \<open>The turn scheduler\<close>

text \<open>
  \<open>getNextSpeaker\<close> returns \<open>null\<close> on an empty order. Otherwise it reads
  \<open>speakingOrder[currentSpeakerIndex]\<close>, which is \<open>undefined\<close> when the index is out of
  range, and advances the index modulo the length. \<open>None\<close> stands for \<open>null\<close> and
  \<open>undefined\<close>: the only caller tests the result for falsiness.
\<close>

definition getNextSpeaker :: "state \<Rightarrow> jsString option \<times> state" where
  "getNextSpeaker s =
     (if length (speakingOrder s) = 0 then (None, s)
      else
        let speaker = (if currentSpeakerIndex s < length (speakingOrder s)
                       then Some (speakingOrder s ! currentSpeakerIndex s) else None)
        in (speaker,
            s\<lparr>currentSpeakerIndex :=
                 (currentSpeakerIndex s + 1) mod length (speakingOrder s)\<rparr>))"

text \<open>The speakers returned by \<open>n\<close> successive calls, and the state they leave.\<close>

fun nextSpeakers :: "nat \<Rightarrow> state \<Rightarrow> jsString option list \<times> state" where
  "nextSpeakers 0 s = ([], s)"
| "nextSpeakers (Suc n) s =
     (case getNextSpeaker s of (sp, s') \<Rightarrow>
        (case nextSpeakers n s' of (sps, s'') \<Rightarrow> (sp # sps, s'')))"

subsection \<open>One turn\<close>

definition addMessageToChat :: "jsString \<Rightarrow> jsString \<Rightarrow> bool \<Rightarrow> world \<Rightarrow> world" where
  "addMessageToChat sender txt isThinking w =
     w\<lparr>ui := ui w @ [AddMessage sender
                        (if isThinking then sender @ (js '' is thinking...'') else txt)
                        isThinking]\<rparr>"

definition buildConversationContext :: "state \<Rightarrow> jsString" where
  "buildConversationContext s =
     joinWith newline (map (\<lambda>m. msgSender m @ js '': '' @ msgText m) (conversationHistory s))"

definition defaultPersonality :: "jsString \<Rightarrow> jsString" where
  "defaultPersonality llm = js ''You are '' @ llm @ js '', a helpful and conversational AI assistant.''"

text \<open>\<open>llmPersonalities[llm] || ...\<close>: the default stands in for a missing entry and for an
  empty text, not for an inherited member, which is truthy.\<close>

definition personalityOf :: "world \<Rightarrow> jsString \<Rightarrow> persona" where
  "personalityOf w llm =
     (case getProperty (llmPersonalities w) llm of
        Own p \<Rightarrow> if p = [] then PersonaText (defaultPersonality llm) else PersonaText p
      | Inherited member \<Rightarrow> PersonaMember member
      | Missing \<Rightarrow> PersonaText (defaultPersonality llm))"

text \<open>The prompt after the personality at its head.\<close>

definition buildPromptRest :: "world \<Rightarrow> jsString \<Rightarrow> jsString" where
  "buildPromptRest w context =
     newline @ newline
     @ js ''You are participating in a multi-AI conversation about: '' @ topic (st w) @ js ''.'' @ newline
     @ js ''The user's name is '' @ username (st w)
     @ js ''. Always address them by name rather than calling them '' @ [0x22] @ js ''User''
     @ [0x22] @ js ''.'' @ newline
     @ js ''The conversation so far:'' @ newline @ context @ newline
     @ js ''Continue the conversation in your unique voice and perspective. Reference what other AIs and ''
     @ username (st w)
     @ js '' have said when appropriate. Keep your response conversational and under 150 words.''"

text \<open>
  \<open>generateResponse\<close> after its awaited call has settled: the trimmed content, or, when the
  call rejected, the bracketed notice that the \<open>catch\<close> returns.
\<close>

definition failureNotice :: "jsString \<Rightarrow> jsString" where
  "failureNotice llm = js ''['' @ llm @ js '' couldn't generate a response due to a technical issue]''"

definition generateResponse :: "jsString \<Rightarrow> provider_result \<Rightarrow> jsString" where
  "generateResponse llm r =
     (case r of
        Completion content \<Rightarrow> trim content
      | Rejected err \<Rightarrow> failureNotice llm)"

definition continueConversation :: "world \<Rightarrow> world" where
  "continueConversation w =
     (if isPaused (st w) \<or> \<not> isOngoing (st w) then w
      else
        case getNextSpeaker (st w) of
          (None, s') \<Rightarrow> w\<lparr>st := s'\<rparr>
        | (Some nextSpeaker, s') \<Rightarrow>
            if nextSpeaker = [] then w\<lparr>st := s'\<rparr>
            else
              let w1 = addMessageToChat nextSpeaker [] True (w\<lparr>st := s'\<rparr>);
                  thinkingMsg = length (ui w);
                  tid = nextId w1
              in w1\<lparr>st := (st w1)\<lparr>responseTimeout := Some tid\<rparr>,
                    timers := timers w1 @ [(tid, ResponseTimer nextSpeaker thinkingMsg)],
                    nextId := tid + 1\<rparr>)"

text \<open>The response timer fires: the context is built and the provider call starts.\<close>

definition responseTimerFires :: "jsString \<Rightarrow> nat \<Rightarrow> world \<Rightarrow> world" where
  "responseTimerFires nextSpeaker thinkingMsg w =
     (let context = buildConversationContext (st w);
          cid = nextId w
      in w\<lparr>calls := calls w @ [(cid, \<lparr>reqLlm = nextSpeaker, reqNode = thinkingMsg,
                                      reqPersonality = personalityOf w nextSpeaker,
                                      reqPromptRest = buildPromptRest w context\<rparr>)],
            nextId := cid + 1\<rparr>)"

text \<open>The provider call settles: the reply replaces the thinking text, is pushed on the
  history, and the one-second pace timer is set.\<close>

definition providerSettles :: "request \<Rightarrow> provider_result \<Rightarrow> world \<Rightarrow> world" where
  "providerSettles rq r w =
     (let response = generateResponse (reqLlm rq) r;
          tid = nextId w
      in w\<lparr>ui := ui w @ [ShowResponse (reqNode rq) response],
            st := (st w)\<lparr>conversationHistory :=
                     conversationHistory (st w) @ [\<lparr>msgSender = reqLlm rq, msgText = response\<rparr>]\<rparr>,
            timers := timers w @ [(tid, PaceTimer)],
            nextId := tid + 1\<rparr>)"

definition paceTimerFires :: "world \<Rightarrow> world" where
  "paceTimerFires w =
     (if isOngoing (st w) \<and> \<not> isPaused (st w) then continueConversation w else w)"

subsection \<open>Starting: the shuffle\<close>

text \<open>
  The loop \<open>for (i = length - 1; i > 0; i--)\<close> swaps position \<open>i\<close> with position
  \<open>j = Math.floor(Math.random() * (i + 1))\<close>. The draws are the parameter \<open>rnd\<close>: \<open>rnd i\<close>
  is the \<open>j\<close> drawn in the iteration for \<open>i\<close>, a number between \<open>0\<close> and \<open>i\<close>.
\<close>

definition swap :: "nat \<Rightarrow> nat \<Rightarrow> 'a list \<Rightarrow> 'a list" where
  "swap i j xs = xs[i := xs ! j, j := xs ! i]"

fun shuffleFrom :: "nat \<Rightarrow> (nat \<Rightarrow> nat) \<Rightarrow> 'a list \<Rightarrow> 'a list" where
  "shuffleFrom 0 rnd xs = xs"
| "shuffleFrom (Suc i) rnd xs = shuffleFrom i rnd (swap (Suc i) (rnd (Suc i)) xs)"

definition shuffle :: "(nat \<Rightarrow> nat) \<Rightarrow> 'a list \<Rightarrow> 'a list" where
  "shuffle rnd xs = shuffleFrom (length xs - 1) rnd xs"

text \<open>\<open>startConversation\<close> up to its last statement, which is the call of
  \<open>continueConversation\<close>.\<close>

definition startSetup :: "jsString list \<Rightarrow> jsString \<Rightarrow> (nat \<Rightarrow> nat) \<Rightarrow> world \<Rightarrow> world" where
  "startSetup checked topicValue rnd w =
     (let sel = checked @ map llmName (customLLMs (st w));
          tp = trim topicValue;
          w1 = w\<lparr>st := (st w)\<lparr>selectedLLMs := sel, topic := tp, isOngoing := True,
                              isPaused := False, conversationHistory := [],
                              speakingOrder := shuffle rnd sel, currentSpeakerIndex := 0\<rparr>,
                 ui := ui w @ [ClearChat]\<rparr>;
          opening = js ''Let's discuss this topic: '' @ tp;
          w2 = addMessageToChat (username (st w1)) opening False w1
      in w2\<lparr>st := (st w2)\<lparr>conversationHistory :=
                      conversationHistory (st w2)
                      @ [\<lparr>msgSender = username (st w2), msgText = opening\<rparr>],
                    userCanInteract := True\<rparr>\<rparr>)"

definition startConversation :: "jsString list \<Rightarrow> jsString \<Rightarrow> (nat \<Rightarrow> nat) \<Rightarrow> world \<Rightarrow> world" where
  "startConversation checked topicValue rnd w =
     continueConversation (startSetup checked topicValue rnd w)"

subsection \<open>Pause, restart, joining, user messages\<close>

text \<open>\<open>clearTimeout\<close> on the stored handle, when there is one, and the handle forgotten. A
  handle whose timer has fired already clears nothing. Handles are positive numbers in a
  browser, so a stored handle is truthy.\<close>

definition clearResponseTimeout :: "world \<Rightarrow> world" where
  "clearResponseTimeout w =
     (case responseTimeout (st w) of
        None \<Rightarrow> w
      | Some t \<Rightarrow> w\<lparr>timers := filter (\<lambda>p. fst p \<noteq> t) (timers w),
                     st := (st w)\<lparr>responseTimeout := None\<rparr>\<rparr>)"

definition togglePause :: "world \<Rightarrow> world" where
  "togglePause w =
     (let w1 = w\<lparr>st := (st w)\<lparr>isPaused := \<not> isPaused (st w)\<rparr>\<rparr>
      in if isPaused (st w1) then clearResponseTimeout w1 else continueConversation w1)"

definition restartConversation :: "world \<Rightarrow> world" where
  "restartConversation w =
     (let w1 = clearResponseTimeout w
      in w1\<lparr>st := (st w1)\<lparr>isOngoing := False, isPaused := False, userCanInteract := False\<rparr>\<rparr>)"

definition customPersonality :: "jsString \<Rightarrow> jsString" where
  "customPersonality name =
     js ''You are '' @ name
     @ js '', a helpful and conversational AI assistant with your own unique style and perspective.''"

definition addCustomLlm :: "jsString \<Rightarrow> jsString \<Rightarrow> jsString \<Rightarrow> world \<Rightarrow> world" where
  "addCustomLlm nameValue keyValue endpointValue w =
     (let name = trim nameValue; apiKey = trim keyValue; endpoint = trim endpointValue
      in if name = [] \<or> apiKey = []
         then w\<lparr>ui := ui w @ [Alert (js ''Please provide a name and API key for the LLM.'')]\<rparr>
         else
           let w1 = w\<lparr>st := (st w)\<lparr>customLLMs := customLLMs (st w)
                          @ [\<lparr>llmName = name, llmApiKey = apiKey, llmEndpoint = endpoint\<rparr>]\<rparr>\<rparr>;
               w2 = (if isOngoing (st w1)
                     then addMessageToChat (js ''System'') (name @ js '' has joined the conversation.'') False
                            (w1\<lparr>st := (st w1)\<lparr>selectedLLMs := selectedLLMs (st w1) @ [name],
                                                speakingOrder := speakingOrder (st w1) @ [name]\<rparr>\<rparr>)
                     else w1)
           in w2\<lparr>llmPersonalities :=
                   setProperty (llmPersonalities w2) name (customPersonality name)\<rparr>)"

definition handleUserMessage :: "jsString \<Rightarrow> world \<Rightarrow> world" where
  "handleUserMessage inputValue w =
     (let userMessage = trim inputValue
      in if userMessage = [] \<or> \<not> isOngoing (st w) \<or> isPaused (st w) then w
         else
           let w1 = addMessageToChat (username (st w)) userMessage False w;
               w2 = w1\<lparr>st := (st w1)\<lparr>conversationHistory :=
                              conversationHistory (st w1)
                              @ [\<lparr>msgSender = username (st w1), msgText = userMessage\<rparr>]\<rparr>\<rparr>
           in continueConversation w2)"

text \<open>\<open>changeUsername\<close>: the prompt is cancelled (\<open>None\<close>) or returns a text.\<close>

definition changeUsername :: "jsString option \<Rightarrow> world \<Rightarrow> world" where
  "changeUsername newUsername w =
     (case newUsername of
        None \<Rightarrow> w
      | Some n \<Rightarrow> if n \<noteq> [] \<and> trim n \<noteq> [] then w\<lparr>st := (st w)\<lparr>username := trim n\<rparr>\<rparr> else w)"

subsection \<open>Events\<close>

text \<open>
  What can happen to the page: a click on one of the buttons with the values of the form
  fields at that moment (and, for a start, the draws of the shuffle), a pending timer
  firing, a pending provider call settling. A timer or a call that is not pending cannot
  fire or settle: the step does nothing.
\<close>

datatype event =
    StartClick "jsString list" jsString "nat \<Rightarrow> nat"
  | PauseResumeClick
  | RestartClick
  | SaveCustomLlmClick jsString jsString jsString
  | SendClick jsString
  | EditUsername "jsString option"
  | TimerFires nat
  | ProviderSettles nat provider_result

fun step :: "event \<Rightarrow> world \<Rightarrow> world" where
  "step (StartClick checked topicValue rnd) w = startConversation checked topicValue rnd w"
| "step PauseResumeClick w = togglePause w"
| "step RestartClick w = restartConversation w"
| "step (SaveCustomLlmClick n k e) w = addCustomLlm n k e w"
| "step (SendClick v) w = handleUserMessage v w"
| "step (EditUsername n) w = changeUsername n w"
| "step (TimerFires tid) w =
     (case map_of (timers w) tid of
        None \<Rightarrow> w
      | Some t \<Rightarrow>
          let w1 = w\<lparr>timers := filter (\<lambda>p. fst p \<noteq> tid) (timers w)\<rparr>
          in (case t of
                ResponseTimer nextSpeaker thinkingMsg \<Rightarrow> responseTimerFires nextSpeaker thinkingMsg w1
              | PaceTimer \<Rightarrow> paceTimerFires w1))"
| "step (ProviderSettles cid r) w =
     (case map_of (calls w) cid of
        None \<Rightarrow> w
      | Some rq \<Rightarrow> providerSettles rq r (w\<lparr>calls := filter (\<lambda>p. fst p \<noteq> cid) (calls w)\<rparr>))"

fun run :: "event list \<Rightarrow> world \<Rightarrow> world" where
  "run [] w = w"
| "run (e # es) w = run es (step e w)"

text \<open>The page after loading, with the static persona table \<open>P\<close> of the script.\<close>

definition init :: "(jsString \<Rightarrow> jsString option) \<Rightarrow> world" where
  "init P =
     \<lparr>st = \<lparr>selectedLLMs = [], topic = [], isPaused = False, isOngoing = False,
            conversationHistory = [], customLLMs = [], speakingOrder = [],
            currentSpeakerIndex = 0, responseTimeout = None, userCanInteract = True,
            username = js ''User''\<rparr>,
      llmPersonalities = P, timers = [], calls = [], nextId = 1, ui = []\<rparr>"

section \<open>The server (server/index.js)\<close>

text \<open>
  The server keeps \<open>activeChats\<close>, a map from chat id to the chat's status, its connected
  users and its participants. Its handlers are \<open>async\<close> functions. Each is modelled in one
  piece, in the order of its statements, with what every \<open>await\<close> delivers given as an
  argument: the result of the awaited collaborator and, where the handler reads
  \<open>activeChats\<close> again after an \<open>await\<close>, the map as other handlers have left it by then.
  What a handler does to the outside is the list of its effects, in order.
\<close>

subsection \<open>Data\<close>

datatype chat_status = Active | Paused | Stopped

record chatData =
  status :: chat_status
  users :: "jsString set"
  llms :: "jsString list"

type_synonym activeChats = "jsString \<Rightarrow> chatData option"

record serverMessage =
  chat_id :: jsString
  sender :: jsString
  content :: jsString
  is_user :: bool

text \<open>A row of the \<open>messages\<close> table as the insert returns it.\<close>

record savedMessage = serverMessage +
  row_id :: nat
  created_at :: jsString

datatype payload =
    Message serverMessage
  | Saved savedMessage
  | Thinking jsString jsString
  | Error jsString jsString jsString
  | StatusEvent jsString

datatype level = Info | Warn | Err

text \<open>
  Effects: an event emitted to the room of a chat, a log line, and the calls of the
  collaborators (the profile lookup, the language model service, the two writes to the
  store).
\<close>

datatype effect =
    Emit jsString payload
  | Log level jsString
  | GetUserProfile jsString
  | CallLLM jsString jsString jsString
  | SaveMessage jsString jsString jsString bool
  | UpdateStatus jsString chat_status

subsection \<open>The language model service\<close>









subsection \<open>The chat manager\<close>

text \<open>What the store answers: to \<open>getChat\<close> (the chat's stored status, if it has one, and
  its participants, or an error), to \<open>saveMessage\<close> and to \<open>updateChatStatus\<close>.\<close>

datatype chat_lookup = ChatRow "chat_status option" "jsString list" | ChatError jsString

datatype save_outcome = SaveOk nat jsString | SaveError jsString

datatype update_outcome = UpdateOk | UpdateError jsString

text \<open>What the \<open>await\<close> of the service's \<open>generateResponse\<close> delivers to
  \<open>handleUserMessage\<close>: a text, or an exception for its \<open>catch\<close>.\<close>

datatype gen_outcome = GenResolved jsString | GenRejected jsString

text \<open>
  The surroundings of one turn of the loop in \<open>handleUserMessage\<close>: what the generation
  delivers, \<open>activeChats\<close> at that moment, and what the store answers to the save.
\<close>

record turnEnv =
  generation :: gen_outcome
  chatsAtCompletion :: activeChats
  saving :: save_outcome

definition isActive :: "activeChats \<Rightarrow> jsString \<Rightarrow> bool" where
  "isActive chats chatId =
     (case chats chatId of None \<Rightarrow> False | Some cd \<Rightarrow> status cd = Active)"

text \<open>
  \<open>ChatManager.joinChat\<close>: the map after the handler, and the returned boolean. For a chat
  that is not tracked the handler awaits \<open>getChat\<close>; \<open>chatsAtLookup\<close> is \<open>activeChats\<close> as
  other handlers have left it when the lookup is delivered, and the new entry is set on
  it whatever it holds for the chat by then. For a tracked chat nothing is awaited.
\<close>

definition joinChat ::
  "activeChats \<Rightarrow> jsString \<Rightarrow> jsString \<Rightarrow> chat_lookup \<Rightarrow> activeChats \<Rightarrow> activeChats \<times> bool" where
  "joinChat chats userId chatId lookup chatsAtLookup =
     (case chats chatId of
        None \<Rightarrow>
          (case lookup of
             ChatError e \<Rightarrow> (chatsAtLookup, False)
           | ChatRow stored ls \<Rightarrow>
               (chatsAtLookup(chatId \<mapsto> \<lparr>status = (case stored of Some s \<Rightarrow> s | None \<Rightarrow> Active),
                                           users = {userId}, llms = ls\<rparr>), True))
      | Some cd \<Rightarrow> (chats(chatId \<mapsto> cd\<lparr>users := insert userId (users cd)\<rparr>), True))"

definition leaveChat :: "activeChats \<Rightarrow> jsString \<Rightarrow> jsString \<Rightarrow> activeChats" where
  "leaveChat chats userId chatId =
     (case chats chatId of
        None \<Rightarrow> chats
      | Some cd \<Rightarrow>
          if users cd - {userId} = {} then chats(chatId := None)
          else chats(chatId \<mapsto> cd\<lparr>users := users cd - {userId}\<rparr>))"

text \<open>
  The loop \<open>for (const llm of chatData.llms)\<close>. A turn whose surroundings are missing is
  one whose generation has not settled: the handler stays suspended after the thinking
  event and the call.
\<close>

fun processLlms :: "jsString \<Rightarrow> jsString \<Rightarrow> jsString \<Rightarrow> jsString list \<Rightarrow> turnEnv list \<Rightarrow> effect list" where
  "processLlms chatId msg uname [] envs = []"
| "processLlms chatId msg uname (llm # rest) [] =
     [Emit chatId (Thinking chatId llm), CallLLM llm msg uname]"
| "processLlms chatId msg uname (llm # rest) (e # es) =
     [Emit chatId (Thinking chatId llm), CallLLM llm msg uname]
     @ (case generation e of
          GenRejected err \<Rightarrow>
            [Log Err (js ''Error generating response from '' @ llm @ js '':''),
             Emit chatId (Error chatId llm (js ''Failed to generate response from '' @ llm))]
            @ processLlms chatId msg uname rest es
        | GenResolved response \<Rightarrow>
            if \<not> isActive (chatsAtCompletion e) chatId
            then [Log Info (js ''Skipping response for '' @ chatId @ js '' (chat no longer active)'')]
            else
              [SaveMessage chatId llm response False]
              @ (case saving e of
                   SaveError err \<Rightarrow> [Log Err (js ''Error saving message from '' @ llm @ js '':'')]
                 | SaveOk rid ts \<Rightarrow>
                     [Emit chatId (Saved \<lparr>chat_id = chatId, sender = llm, content = response,
                                           is_user = False, row_id = rid, created_at = ts\<rparr>),
                      Log Info (js ''Sent '' @ llm @ js '' response to chat '' @ chatId)]
                     @ processLlms chatId msg uname rest es))"

text \<open>
  \<open>ChatManager.handleUserMessage\<close>: \<open>profileName\<close> is the username of the profile that the
  lookup delivers, if any. The handler does not write to \<open>activeChats\<close>.
\<close>

definition ChatManager_handleUserMessage ::
  "activeChats \<Rightarrow> jsString \<Rightarrow> serverMessage \<Rightarrow> jsString option \<Rightarrow> turnEnv list \<Rightarrow> effect list" where
  "ChatManager_handleUserMessage chats userId message profileName envs =
     (let chatId = chat_id message
      in [Log Info (js ''Message in chat '' @ chatId @ js '' from '' @ sender message @ js '': ''
                    @ take 50 (content message) @ js ''...''),
          Emit chatId (Message message)]
         @ (if is_user message \<and> isActive chats chatId
            then
              (case chats chatId of
                 None \<Rightarrow> []
               | Some chatData \<Rightarrow>
                   let uname = (case profileName of
                                  Some u \<Rightarrow> if u \<noteq> [] then u else js ''User''
                                | None \<Rightarrow> js ''User'')
                   in GetUserProfile userId
                      # processLlms chatId (content message) uname (llms chatData) envs)
            else []))"

definition statusEventName :: "chat_status \<Rightarrow> jsString" where
  "statusEventName s = (case s of Active \<Rightarrow> js ''resume'' | Paused \<Rightarrow> js ''paused'' | Stopped \<Rightarrow> js ''stopped'')"

definition statusName :: "chat_status \<Rightarrow> jsString" where
  "statusName s = (case s of Active \<Rightarrow> js ''active'' | Paused \<Rightarrow> js ''paused'' | Stopped \<Rightarrow> js ''stopped'')"

text \<open>\<open>ChatManager.updateChatStatus\<close>: the new map, the effects, the returned boolean.\<close>

definition ChatManager_updateChatStatus ::
  "activeChats \<Rightarrow> jsString \<Rightarrow> chat_status \<Rightarrow> update_outcome \<Rightarrow> activeChats \<times> effect list \<times> bool" where
  "ChatManager_updateChatStatus chats chatId s db =
     (let l0 = Log Info (js ''Updating chat '' @ chatId @ js '' status to '' @ statusName s)
      in case chats chatId of
           None \<Rightarrow> (chats, [l0, Log Warn (js ''Chat '' @ chatId @ js '' not found in active chats'')], False)
         | Some cd \<Rightarrow>
             let chats' = chats(chatId \<mapsto> cd\<lparr>status := s\<rparr>)
             in (case db of
                   UpdateError e \<Rightarrow>
                     (chats', [l0, UpdateStatus chatId s,
                               Log Err (js ''Failed to update chat '' @ chatId @ js '' status:'')], False)
                 | UpdateOk \<Rightarrow>
                     (chats', [l0, UpdateStatus chatId s, Emit chatId (StatusEvent (statusEventName s)),
                               Log Info (js ''Chat '' @ chatId @ js '' status updated to '' @ statusName s)],
                      True)))"

text \<open>The socket handlers for \<open>pause\<close>, \<open>resume\<close> and \<open>stop\<close>.\<close>

datatype control = Pause | Resume | Stop

definition requestedStatus :: "control \<Rightarrow> chat_status" where
  "requestedStatus c = (case c of Pause \<Rightarrow> Paused | Resume \<Rightarrow> Active | Stop \<Rightarrow> Stopped)"

definition onControl ::
  "control \<Rightarrow> activeChats \<Rightarrow> jsString \<Rightarrow> update_outcome \<Rightarrow> activeChats \<times> effect list \<times> bool" where
  "onControl c chats chatId db = ChatManager_updateChatStatus chats chatId (requestedStatus c) db"

text \<open>The thinking events among some effects, and the calls of the service.\<close>

fun thinkingOf :: "effect list \<Rightarrow> jsString list" where
  "thinkingOf [] = []"
| "thinkingOf (Emit room (Thinking c llm) # fx) = llm # thinkingOf fx"
| "thinkingOf (x # fx) = thinkingOf fx"

fun callsOf :: "effect list \<Rightarrow> jsString list" where
  "callsOf [] = []"
| "callsOf (CallLLM llm m u # fx) = llm # callsOf fx"
| "callsOf (x # fx) = callsOf fx"

text \<open>The events emitted among some effects, and the saves.\<close>

fun emitsOf :: "effect list \<Rightarrow> (jsString \<times> payload) list" where
  "emitsOf [] = []"
| "emitsOf (Emit room p # fx) = (room, p) # emitsOf fx"
| "emitsOf (x # fx) = emitsOf fx"

fun savesOf :: "effect list \<Rightarrow> (jsString \<times> jsString) list" where
  "savesOf [] = []"
| "savesOf (SaveMessage c s t u # fx) = (s, t) # savesOf fx"
| "savesOf (x # fx) = savesOf fx"



section \<open>Sample conversations\<close>

text \<open>Three participants and draws that leave the order as it is: the state between the
  shuffle and the first turn.\<close>

definition abcState :: state where
  "abcState = st (startSetup [js ''A'', js ''B'', js ''C''] (js ''cats'') (\<lambda>i. i) (init Map.empty))"

text \<open>A tracked chat \<open>c1\<close> with two participants and one connected user, in a given status; a
  user message to it; a turn in which the generation delivers a reply, the chat is still
  active and the save succeeds; a turn in which the save fails.\<close>

definition sampleChats :: "chat_status \<Rightarrow> activeChats" where
  "sampleChats s = [js ''c1'' \<mapsto> \<lparr>status = s, users = {js ''u1''}, llms = [js ''ChatGPT'', js ''Claude'']\<rparr>]"

definition sampleMessage :: serverMessage where
  "sampleMessage = \<lparr>chat_id = js ''c1'', sender = js ''Ann'', content = js ''go'', is_user = True\<rparr>"

definition goodTurn :: "jsString \<Rightarrow> nat \<Rightarrow> turnEnv" where
  "goodTurn reply rid =
     \<lparr>generation = GenResolved reply, chatsAtCompletion = sampleChats Active,
      saving = SaveOk rid (js ''2024-01-01T00:00:00.000Z'')\<rparr>"

definition failedSaveTurn :: "jsString \<Rightarrow> turnEnv" where
  "failedSaveTurn reply =
     \<lparr>generation = GenResolved reply, chatsAtCompletion = sampleChats Active,
      saving = SaveError (js ''connection refused'')\<rparr>"

text \<open>Two participants, started with draws that keep the order \<open>A, B\<close>; then a user message
  while the first turn is pending and both response timers firing; and, from the start
  again, the first response timer firing and the user pausing while the provider call is
  awaited.\<close>

definition twoStarted :: world where
  "twoStarted = run [StartClick [js ''A'', js ''B''] (js ''cats'') (\<lambda>i. i)] (init Map.empty)"

definition overlapping :: world where
  "overlapping = run [SendClick (js ''hi''), TimerFires 1, TimerFires 2] twoStarted"

definition pausedInFlight :: world where
  "pausedInFlight = run [TimerFires 1, PauseResumeClick] twoStarted"



section \<open>Turns in flight, triggers and the range of the cursor\<close>

text \<open>
  A turn of the client is in flight from its thinking indicator to the end of the pause
  after its reply: it is a pending response timer, then an awaited provider call, then a
  pending pace timer. An event is a trigger in a world when its handler gets to its call
  of \<open>continueConversation\<close> there: a start, a resume (the pause/resume button clicked
  while paused), and a user message that \<open>handleUserMessage\<close> accepts (not blank, sent
  while the conversation is ongoing and not paused). \<open>triggers es w\<close> counts the triggers
  among the events \<open>es\<close> as they happen one after the other from the world \<open>w\<close>.
\<close>

definition inFlight :: "world \<Rightarrow> nat" where
  "inFlight w = length (timers w) + length (calls w)"

fun startsTurn :: "event \<Rightarrow> world \<Rightarrow> bool" where
  "startsTurn (StartClick checked topicValue rnd) w = True"
| "startsTurn PauseResumeClick w = isPaused (st w)"
| "startsTurn (SendClick v) w = (trim v \<noteq> [] \<and> isOngoing (st w) \<and> \<not> isPaused (st w))"
| "startsTurn e w = False"

fun triggers :: "event list \<Rightarrow> world \<Rightarrow> nat" where
  "triggers [] w = 0"
| "triggers (e # es) w = (if startsTurn e w then 1 else 0) + triggers es (step e w)"

text \<open>
  On the server a pass is one run of \<open>handleUserMessage\<close>: the map at the arrival of the
  message, the user, the message, the profile name and the turns whose generation has
  settled so far. The calls of the service that a pass has made and that have not
  settled are the calls beyond its settled turns.
\<close>

type_synonym pass = "activeChats \<times> jsString \<times> serverMessage \<times> jsString option \<times> turnEnv list"

fun outstanding :: "pass \<Rightarrow> nat" where
  "outstanding (chats, userId, m, p, envs) =
     length (callsOf (ChatManager_handleUserMessage chats userId m p envs)) - length envs"

fun isStart :: "event \<Rightarrow> bool" where
  "isStart (StartClick checked topicValue rnd) = True"
| "isStart e = False"

text \<open>The cursor is at the start or at a position of the speaking order.\<close>

definition cursorOk :: "world \<Rightarrow> bool" where
  "cursorOk w =
     (currentSpeakerIndex (st w) = 0 \<or> currentSpeakerIndex (st w) < length (speakingOrder (st w)))"

section \<open>Properties of strings\<close>

lemma js_Nil [simp]: "js [] = []"
  by (simp add: js_def)

lemma js_Cons [simp]: "js (c # cs) = of_char c # js cs"
  by (simp add: js_def)



text \<open>A text of no-break spaces, byte order marks and line separators is blank, and such
  characters are trimmed from the ends of a name.\<close>

lemma trim_unicode_blank: "trim [0xA0] = [] \<and> trim [0xFEFF, 0x20, 0x2028, 0x3000] = []"
  by code_simp

lemma trim_unicode_ends: "trim (0xA0 # js ''Bob'' @ [0x2003, 0x0A]) = js ''Bob''"
  by code_simp

section \<open>Properties of the turn scheduler\<close>

lemma getNextSpeaker_in_range:
  assumes "currentSpeakerIndex s < length (speakingOrder s)"
  shows "getNextSpeaker s =
           (Some (speakingOrder s ! currentSpeakerIndex s),
            s\<lparr>currentSpeakerIndex := (currentSpeakerIndex s + 1) mod length (speakingOrder s)\<rparr>)"
  using assms by (auto simp: getNextSpeaker_def)

lemma getNextSpeaker_empty: "speakingOrder s = [] \<Longrightarrow> getNextSpeaker s = (None, s)"
  by (simp add: getNextSpeaker_def)

text \<open>From a cursor in range, the \<open>k\<close>-th of \<open>n\<close> successive calls returns the entry at
  position \<open>(cursor + k) mod length\<close>.\<close>

lemma nextSpeakers_cycle:
  assumes "currentSpeakerIndex s < length (speakingOrder s)"
  shows "nextSpeakers n s =
           (map (\<lambda>k. Some (speakingOrder s ! ((currentSpeakerIndex s + k) mod length (speakingOrder s))))
                [0..<n],
            s\<lparr>currentSpeakerIndex := (currentSpeakerIndex s + n) mod length (speakingOrder s)\<rparr>)"
  using assms
proof (induction n arbitrary: s)
  case 0
  then show ?case by simp
next
  case (Suc n)
  let ?L = "length (speakingOrder s)"
  let ?c = "currentSpeakerIndex s"
  let ?s' = "s\<lparr>currentSpeakerIndex := (?c + 1) mod ?L\<rparr>"
  have L: "0 < ?L" using Suc.prems by (cases "speakingOrder s") simp_all
  have c': "currentSpeakerIndex ?s' < length (speakingOrder ?s')" using L by simp
  have shift: "(Suc ?c mod ?L + k) mod ?L = Suc (?c + k) mod ?L" for k
    by (simp add: mod_add_left_eq)
  have "nextSpeakers (Suc n) s =
          (Some (speakingOrder s ! ?c) # fst (nextSpeakers n ?s'), snd (nextSpeakers n ?s'))"
    by (simp add: getNextSpeaker_in_range [OF Suc.prems] split: prod.splits)
  also have "nextSpeakers n ?s' =
          (map (\<lambda>k. Some (speakingOrder s ! ((?c + Suc k) mod ?L))) [0..<n],
           s\<lparr>currentSpeakerIndex := (?c + Suc n) mod ?L\<rparr>)"
    using Suc.IH [OF c'] by (simp add: shift)
  finally show ?case
    using Suc.prems by (simp add: map_upt_Suc del: upt_Suc)
qed

lemma abcState_order: "speakingOrder abcState = [js ''A'', js ''B'', js ''C'']"
  by code_simp

lemma abcState_cursor: "currentSpeakerIndex abcState = 0"
  by code_simp

text \<open>
  Claim C3. \<open>getNextSpeaker\<close> is a round-robin step. On an empty speaking order it returns
  nothing and leaves the state as it is. On a non-empty order with the cursor at a
  position \<open>i\<close> of the order it returns the entry at \<open>i\<close> and changes nothing but the
  cursor, which becomes \<open>(i + 1) mod length\<close>; the \<open>k\<close>-th of any number of successive
  calls returns the entry at \<open>(i + k) mod length\<close>. So from the order \<open>[a, b, c]\<close> and
  cursor \<open>0\<close> the calls yield \<open>a, b, c, a, b, c, ...\<close>.
\<close>

theorem getNextSpeaker_round_robin:
  "(speakingOrder s = [] \<longrightarrow> getNextSpeaker s = (None, s)) \<and>
   (speakingOrder s \<noteq> [] \<and> currentSpeakerIndex s < length (speakingOrder s) \<longrightarrow>
      getNextSpeaker s =
        (Some (speakingOrder s ! currentSpeakerIndex s),
         s\<lparr>currentSpeakerIndex := (currentSpeakerIndex s + 1) mod length (speakingOrder s)\<rparr>) \<and>
      fst (nextSpeakers n s) =
        map (\<lambda>k. Some (speakingOrder s ! ((currentSpeakerIndex s + k) mod length (speakingOrder s))))
            [0..<n]) \<and>
   (speakingOrder s = [a, b, c] \<and> currentSpeakerIndex s = 0 \<longrightarrow>
      fst (nextSpeakers (3 * m) s) = concat (replicate m [Some a, Some b, Some c]))"
proof (intro conjI impI)
  show "getNextSpeaker s = (None, s)" if "speakingOrder s = []"
    using that by (rule getNextSpeaker_empty)
next
  assume h: "speakingOrder s \<noteq> [] \<and> currentSpeakerIndex s < length (speakingOrder s)"
  then show "getNextSpeaker s =
        (Some (speakingOrder s ! currentSpeakerIndex s),
         s\<lparr>currentSpeakerIndex := (currentSpeakerIndex s + 1) mod length (speakingOrder s)\<rparr>)"
    by (simp add: getNextSpeaker_in_range)
  from h show "fst (nextSpeakers n s) =
        map (\<lambda>k. Some (speakingOrder s ! ((currentSpeakerIndex s + k) mod length (speakingOrder s))))
            [0..<n]"
    by (simp add: nextSpeakers_cycle)
next
  assume h: "speakingOrder s = [a, b, c] \<and> currentSpeakerIndex s = 0"
  have "map (\<lambda>k. Some ([a, b, c] ! (k mod 3))) [0..<3 * m]
          = concat (replicate m [Some a, Some b, Some c])"
  proof (induction m)
    case 0
    then show ?case by simp
  next
    case (Suc m)
    have "[0..<3 * Suc m] = [0..<3 * m] @ [3 * m, 3 * m + 1, 3 * m + 2]"
      by (simp add: upt_rec [of "3 * m"] numeral_3_eq_3)
    moreover have "(3 * m + 1) mod 3 = 1" "(3 * m + 2) mod 3 = 2" by presburger+
    moreover have "concat (replicate (Suc m) [Some a, Some b, Some c])
       = concat (replicate m [Some a, Some b, Some c]) @ [Some a, Some b, Some c]"
      by (induction m) simp_all
    ultimately show ?case using Suc by simp
  qed
  with h show "fst (nextSpeakers (3 * m) s) = concat (replicate m [Some a, Some b, Some c])"
    by (simp add: nextSpeakers_cycle)
qed

theorem getNextSpeaker_round_robin_witness:
  "speakingOrder (st (init Map.empty)) = [] \<and>
   getNextSpeaker (st (init Map.empty)) = (None, st (init Map.empty)) \<and>
   speakingOrder abcState \<noteq> [] \<and> currentSpeakerIndex abcState < length (speakingOrder abcState) \<and>
   getNextSpeaker abcState = (Some (js ''A''), abcState\<lparr>currentSpeakerIndex := 1\<rparr>) \<and>
   fst (nextSpeakers 6 abcState)
     = [Some (js ''A''), Some (js ''B''), Some (js ''C''), Some (js ''A''), Some (js ''B''), Some (js ''C'')]"
proof -
  have e: "speakingOrder (st (init Map.empty)) = []" by (simp add: init_def)
  show ?thesis
    using getNextSpeaker_round_robin [of "st (init Map.empty)" 0 a b c 0] e
      getNextSpeaker_round_robin [of abcState 0 "js ''A''" "js ''B''" "js ''C''" 2]
      abcState_order abcState_cursor
    by (simp add: numeral_2_eq_2)
qed

section \<open>Properties of the server\<close>


lemma callsOf_append: "callsOf (xs @ ys) = callsOf xs @ callsOf ys"
  by (induction xs rule: callsOf.induct) simp_all




text \<open>A reply that arrives when the chat is no longer active is dropped, and the pass ends
  there: nothing is saved or broadcast, and no later participant is asked.\<close>

lemma processLlms_inactive:
  "\<not> isActive (chatsAtCompletion e) chatId \<Longrightarrow> generation e = GenResolved response \<Longrightarrow>
   processLlms chatId msg uname (llm # rest) (e # es)
     = [Emit chatId (Thinking chatId llm), CallLLM llm msg uname,
        Log Info (js ''Skipping response for '' @ chatId @ js '' (chat no longer active)'')]"
  by simp

text \<open>A save that fails ends the pass as well.\<close>

lemma processLlms_save_error:
  "isActive (chatsAtCompletion e) chatId \<Longrightarrow> generation e = GenResolved response \<Longrightarrow>
   saving e = SaveError err \<Longrightarrow>
   processLlms chatId msg uname (llm # rest) (e # es)
     = [Emit chatId (Thinking chatId llm), CallLLM llm msg uname,
        SaveMessage chatId llm response False,
        Log Err (js ''Error saving message from '' @ llm @ js '':'')]"
  by simp

text \<open>An exception in a turn is reported to the room, and the pass goes on with the next
  participant.\<close>

lemma processLlms_rejected:
  "generation e = GenRejected err \<Longrightarrow>
   processLlms chatId msg uname (llm # rest) (e # es)
     = [Emit chatId (Thinking chatId llm), CallLLM llm msg uname,
        Log Err (js ''Error generating response from '' @ llm @ js '':''),
        Emit chatId (Error chatId llm (js ''Failed to generate response from '' @ llm))]
       @ processLlms chatId msg uname rest es"
  by simp

text \<open>A join of an untracked chat sets its entry when the lookup is delivered, over
  whatever entry other handlers have made for the chat in the meantime.\<close>

lemma joinChat_sets_entry_after_lookup:
  "chats chatId = None \<Longrightarrow>
   joinChat chats userId chatId (ChatRow stored ls) chatsAtLookup
     = (chatsAtLookup(chatId \<mapsto> \<lparr>status = (case stored of Some s \<Rightarrow> s | None \<Rightarrow> Active),
                                 users = {userId}, llms = ls\<rparr>), True)"
  by (simp add: joinChat_def)

lemma handleUserMessage_not_active:
  "\<not> isActive chats (chat_id m) \<Longrightarrow>
   ChatManager_handleUserMessage chats userId m p envs
     = [Log Info (js ''Message in chat '' @ chat_id m @ js '' from '' @ sender m @ js '': ''
                  @ take 50 (content m) @ js ''...''),
        Emit (chat_id m) (Message m)]"
  by (simp add: ChatManager_handleUserMessage_def Let_def)

text \<open>
  Claim C10. \<open>updateChatStatus\<close> is not atomic with respect to a failure of the store. For a
  chat that is tracked in \<open>activeChats\<close>, when the update of the store fails the function
  returns \<open>false\<close>, the status in memory is the requested one all the same, the store
  was asked for the update, and nothing is emitted to the room.
\<close>

theorem updateChatStatus_not_atomic:
  assumes "chats chatId = Some cd"
  shows "case ChatManager_updateChatStatus chats chatId s (UpdateError e) of
           (chats', fx, result) \<Rightarrow>
             result = False \<and> chats' = chats(chatId \<mapsto> cd\<lparr>status := s\<rparr>) \<and>
             map_option status (chats' chatId) = Some s \<and>
             UpdateStatus chatId s \<in> set fx \<and> emitsOf fx = []"
  using assms by (simp add: ChatManager_updateChatStatus_def Let_def)

theorem updateChatStatus_not_atomic_witness:
  "sampleChats Active (js ''c1'')
     = Some \<lparr>status = Active, users = {js ''u1''}, llms = [js ''ChatGPT'', js ''Claude'']\<rparr> \<and>
   snd (snd (ChatManager_updateChatStatus (sampleChats Active) (js ''c1'') Paused (UpdateError (js ''timeout''))))
     = False \<and>
   map_option status
     (fst (ChatManager_updateChatStatus (sampleChats Active) (js ''c1'') Paused (UpdateError (js ''timeout''))) (js ''c1''))
     = Some Paused \<and>
   emitsOf (fst (snd (ChatManager_updateChatStatus (sampleChats Active) (js ''c1'') Paused
                        (UpdateError (js ''timeout''))))) = []"
proof -
  have h: "sampleChats Active (js ''c1'')
             = Some \<lparr>status = Active, users = {js ''u1''}, llms = [js ''ChatGPT'', js ''Claude'']\<rparr>"
    by (simp add: sampleChats_def)
  show ?thesis
    using updateChatStatus_not_atomic
            [of "sampleChats Active" "js ''c1''"
                "\<lparr>status = Active, users = {js ''u1''}, llms = [js ''ChatGPT'', js ''Claude'']\<rparr>"
                Paused "js ''timeout''"] h
    by (auto split: prod.splits)
qed

text \<open>
  Claim C4, at a failing input. The chat \<open>c1\<close> is tracked and stopped, and a client sends
  \<open>resume\<close> for it. \<open>updateChatStatus\<close> does not look at the current status: it sets the
  status to active, asks the store for the update and broadcasts \<open>resume\<close> to the room.
  The next user message makes the first participant think again. The chat page of the
  repository tells the user that a stopped conversation cannot be continued.
\<close>

theorem resume_reactivates_stopped_chat:
  "map_option status (sampleChats Stopped (js ''c1'')) = Some Stopped \<and>
   map_option status (fst (onControl Resume (sampleChats Stopped) (js ''c1'') UpdateOk) (js ''c1''))
     = Some Active \<and>
   emitsOf (fst (snd (onControl Resume (sampleChats Stopped) (js ''c1'') UpdateOk)))
     = [(js ''c1'', StatusEvent (js ''resume''))] \<and>
   snd (snd (onControl Resume (sampleChats Stopped) (js ''c1'') UpdateOk)) = True \<and>
   thinkingOf (ChatManager_handleUserMessage (sampleChats Stopped) (js ''u1'') sampleMessage
                 (Some (js ''Ann'')) []) = [] \<and>
   thinkingOf (ChatManager_handleUserMessage
                 (fst (onControl Resume (sampleChats Stopped) (js ''c1'') UpdateOk))
                 (js ''u1'') sampleMessage (Some (js ''Ann'')) []) = [js ''ChatGPT'']"
  by (simp add: sampleChats_def onControl_def ChatManager_updateChatStatus_def requestedStatus_def
        statusEventName_def ChatManager_handleUserMessage_def sampleMessage_def isActive_def Let_def)

text \<open>
  Claim C9, at a failing input. The chat \<open>c1\<close> has the participants ChatGPT and Claude. The
  save of ChatGPT's reply fails: the error is logged and the handler returns, so Claude
  gets no thinking event and no call, although its turn would have gone through.
\<close>

theorem save_error_ends_the_pass:
  "ChatManager_handleUserMessage (sampleChats Active) (js ''u1'') sampleMessage (Some (js ''Ann''))
     [failedSaveTurn (js ''hello''), goodTurn (js ''hi'') 2]
   = [Log Info (js ''Message in chat c1 from Ann: go...''),
      Emit (js ''c1'') (Message sampleMessage),
      GetUserProfile (js ''u1''),
      Emit (js ''c1'') (Thinking (js ''c1'') (js ''ChatGPT'')),
      CallLLM (js ''ChatGPT'') (js ''go'') (js ''Ann''),
      SaveMessage (js ''c1'') (js ''ChatGPT'') (js ''hello'') False,
      Log Err (js ''Error saving message from ChatGPT:'')]"
  by (simp add: sampleChats_def ChatManager_handleUserMessage_def sampleMessage_def isActive_def
        failedSaveTurn_def goodTurn_def Let_def)

section \<open>Properties of the client's turns\<close>



lemma continueConversation_idle:
  "isPaused (st w) \<or> \<not> isOngoing (st w) \<Longrightarrow> continueConversation w = w"
  by (simp add: continueConversation_def)





section \<open>User messages\<close>



lemma handleUserMessage_active:
  assumes "trim v \<noteq> []" and "isOngoing (st w)" and "\<not> isPaused (st w)"
  shows "handleUserMessage v w =
           continueConversation
             (w\<lparr>ui := ui w @ [AddMessage (username (st w)) (trim v) False],
                st := (st w)\<lparr>conversationHistory :=
                          conversationHistory (st w)
                          @ [\<lparr>msgSender = username (st w), msgText = trim v\<rparr>]\<rparr>\<rparr>)"
  using assms by (simp add: handleUserMessage_def addMessageToChat_def Let_def)

lemma handleUserMessage_blank: "trim v = [] \<Longrightarrow> handleUserMessage v w = w"
  by (simp add: handleUserMessage_def)



section \<open>Pausing while a reply is generated\<close>

text \<open>On the server the reply of a turn that completes when the chat is paused, stopped or
  no longer tracked is dropped: the handler saves nothing, emits no message, and asks no
  later participant.\<close>

lemma server_discards_reply_when_inactive:
  assumes "\<not> isActive (chatsAtCompletion e) chatId" and "generation e = GenResolved response"
  shows "savesOf (processLlms chatId msg uname (llm # rest) (e # es)) = [] \<and>
         emitsOf (processLlms chatId msg uname (llm # rest) (e # es)) = [(chatId, Thinking chatId llm)] \<and>
         callsOf (processLlms chatId msg uname (llm # rest) (e # es)) = [llm]"
  using assms by simp

text \<open>
  Claim C2, at a failing input of the client. Two participants are started, the response
  timer of \<open>A\<close> fires and its provider call is awaited, and the user pauses. The pause
  finds no timer to clear. When the call completes with a reply, the reply replaces the
  thinking text and is pushed on the history although the conversation is paused. Only
  the next turn is held back: the pace timer that the completion sets starts nothing
  when it fires.
\<close>

theorem paused_reply_is_committed:
  "isPaused (st pausedInFlight) \<and> map fst (calls pausedInFlight) = [2] \<and>
   conversationHistory (st (step (ProviderSettles 2 (Completion (js ''reply''))) pausedInFlight))
     = conversationHistory (st pausedInFlight) @ [\<lparr>msgSender = js ''A'', msgText = js ''reply''\<rparr>] \<and>
   ui (step (ProviderSettles 2 (Completion (js ''reply''))) pausedInFlight)
     = ui pausedInFlight @ [ShowResponse 2 (js ''reply'')] \<and>
   timers (step (ProviderSettles 2 (Completion (js ''reply''))) pausedInFlight) = [(3, PaceTimer)] \<and>
   timers (run [ProviderSettles 2 (Completion (js ''reply'')), TimerFires 3] pausedInFlight) = [] \<and>
   calls (run [ProviderSettles 2 (Completion (js ''reply'')), TimerFires 3] pausedInFlight) = []"
  by code_simp

section \<open>Joining participants\<close>

text \<open>A custom participant with a name and a key, added to an ongoing conversation.\<close>

lemma addCustomLlm_ongoing:
  assumes "trim n \<noteq> []" and "trim k \<noteq> []" and "isOngoing (st w)"
  shows "addCustomLlm n k e w =
           w\<lparr>st := (st w)\<lparr>customLLMs := customLLMs (st w)
                             @ [\<lparr>llmName = trim n, llmApiKey = trim k, llmEndpoint = trim e\<rparr>],
                           selectedLLMs := selectedLLMs (st w) @ [trim n],
                           speakingOrder := speakingOrder (st w) @ [trim n]\<rparr>,
             ui := ui w @ [AddMessage (js ''System'') (trim n @ js '' has joined the conversation.'') False],
             llmPersonalities := setProperty (llmPersonalities w) (trim n) (customPersonality (trim n))\<rparr>"
  using assms by (simp add: addCustomLlm_def addMessageToChat_def Let_def)

lemma addCustomLlm_not_ongoing:
  assumes "trim n \<noteq> []" and "trim k \<noteq> []" and "\<not> isOngoing (st w)"
  shows "addCustomLlm n k e w =
           w\<lparr>st := (st w)\<lparr>customLLMs := customLLMs (st w)
                             @ [\<lparr>llmName = trim n, llmApiKey = trim k, llmEndpoint = trim e\<rparr>]\<rparr>,
             llmPersonalities := setProperty (llmPersonalities w) (trim n) (customPersonality (trim n))\<rparr>"
  using assms by (simp add: addCustomLlm_def Let_def)

lemma addCustomLlm_rejected:
  "trim n = [] \<or> trim k = [] \<Longrightarrow>
   addCustomLlm n k e w = w\<lparr>ui := ui w @ [Alert (js ''Please provide a name and API key for the LLM.'')]\<rparr>"
  by (auto simp: addCustomLlm_def Let_def)




section \<open>The speaking order\<close>

lemma length_swap [simp]: "length (swap i j xs) = length xs"
  by (simp add: swap_def)

lemma mset_swap_in_range:
  "i < length xs \<Longrightarrow> j < length xs \<Longrightarrow> mset (swap i j xs) = mset xs"
  by (simp add: swap_def mset_swap)

lemma length_shuffleFrom [simp]: "length (shuffleFrom i rnd xs) = length xs"
  by (induction i arbitrary: xs) simp_all

text \<open>The loop permutes the list when every draw for a position \<open>i\<close> is at most \<open>i\<close>.\<close>

lemma mset_shuffleFrom:
  "i < length xs \<Longrightarrow> \<forall>k. rnd k \<le> k \<Longrightarrow> mset (shuffleFrom i rnd xs) = mset xs"
proof (induction i arbitrary: xs)
  case 0
  then show ?case by simp
next
  case (Suc i)
  have j: "rnd (Suc i) < length xs"
    using Suc.prems by (meson le_less_trans)
  have "mset (shuffleFrom i rnd (swap (Suc i) (rnd (Suc i)) xs)) = mset (swap (Suc i) (rnd (Suc i)) xs)"
    using Suc.prems by (intro Suc.IH) simp_all
  then show ?case
    using Suc.prems(1) j by (simp add: mset_swap_in_range)
qed

lemma mset_shuffle: "\<forall>k. rnd k \<le> k \<Longrightarrow> mset (shuffle rnd xs) = mset xs"
proof (cases xs)
  case Nil
  then show ?thesis by (simp add: shuffle_def)
next
  case (Cons x ys)
  assume "\<forall>k. rnd k \<le> k"
  then show ?thesis
    unfolding shuffle_def by (intro mset_shuffleFrom) (simp_all add: Cons)
qed

lemma startSetup_order:
  "speakingOrder (st (startSetup checked tv rnd w))
     = shuffle rnd (checked @ map llmName (customLLMs (st w))) \<and>
   selectedLLMs (st (startSetup checked tv rnd w)) = checked @ map llmName (customLLMs (st w)) \<and>
   currentSpeakerIndex (st (startSetup checked tv rnd w)) = 0 \<and>
   isOngoing (st (startSetup checked tv rnd w)) \<and> \<not> isPaused (st (startSetup checked tv rnd w))"
  by (simp add: startSetup_def addMessageToChat_def Let_def)

text \<open>What the handlers other than the start do to the speaking order.\<close>

lemma continueConversation_order [simp]:
  "speakingOrder (st (continueConversation w)) = speakingOrder (st w)"
  by (simp add: continueConversation_def getNextSpeaker_def addMessageToChat_def Let_def
      split: option.splits prod.splits)

lemma clearResponseTimeout_order [simp]:
  "speakingOrder (st (clearResponseTimeout w)) = speakingOrder (st w)"
  by (simp add: clearResponseTimeout_def split: option.splits)

lemma addCustomLlm_order:
  "speakingOrder (st (addCustomLlm n k e w))
     = (if trim n \<noteq> [] \<and> trim k \<noteq> [] \<and> isOngoing (st w)
        then speakingOrder (st w) @ [trim n] else speakingOrder (st w))"
  by (simp add: addCustomLlm_def addMessageToChat_def Let_def)

lemma step_order:
  "\<not> isStart ev \<Longrightarrow>
   speakingOrder (st (step ev w))
     = (case ev of
          SaveCustomLlmClick n k e \<Rightarrow>
            if trim n \<noteq> [] \<and> trim k \<noteq> [] \<and> isOngoing (st w)
            then speakingOrder (st w) @ [trim n] else speakingOrder (st w)
        | _ \<Rightarrow> speakingOrder (st w))"
proof (cases ev)
  case (TimerFires tid)
  then show ?thesis
    by (simp add: responseTimerFires_def paceTimerFires_def Let_def split: option.splits timer.splits)
next
  case (ProviderSettles cid r)
  then show ?thesis
    by (simp add: providerSettles_def Let_def split: option.splits)
qed (simp_all add: togglePause_def restartConversation_def addCustomLlm_order handleUserMessage_def
       changeUsername_def addMessageToChat_def Let_def split: option.splits)
text \<open>Every handler keeps the cursor at the start or inside the order, so it is there in
  every world that the events can reach from the loaded page.\<close>

lemma cursorOk_continueConversation: "cursorOk w \<Longrightarrow> cursorOk (continueConversation w)"
  by (auto simp: cursorOk_def continueConversation_def getNextSpeaker_def addMessageToChat_def Let_def
      split: option.splits prod.splits)

lemma cursorOk_clearResponseTimeout: "cursorOk w \<Longrightarrow> cursorOk (clearResponseTimeout w)"
  by (simp add: cursorOk_def clearResponseTimeout_def split: option.splits)

lemma cursorOk_startSetup: "cursorOk (startSetup checked tv rnd w)"
  by (simp add: cursorOk_def startSetup_order)

lemma cursorOk_step: "cursorOk w \<Longrightarrow> cursorOk (step ev w)"
proof (cases ev)
  case (StartClick checked tv rnd)
  then show ?thesis
    by (simp add: startConversation_def cursorOk_continueConversation cursorOk_startSetup)
next
  case PauseResumeClick
  assume "cursorOk w"
  then have "cursorOk (w\<lparr>st := (st w)\<lparr>isPaused := b\<rparr>\<rparr>)" for b
    by (simp add: cursorOk_def)
  then show ?thesis
    using PauseResumeClick
    by (simp add: togglePause_def Let_def cursorOk_continueConversation cursorOk_clearResponseTimeout)
next
  case RestartClick
  assume "cursorOk w"
  then have "cursorOk (clearResponseTimeout w)" by (rule cursorOk_clearResponseTimeout)
  then show ?thesis
    using RestartClick by (simp add: restartConversation_def Let_def cursorOk_def)
next
  case (SaveCustomLlmClick n k e)
  assume "cursorOk w"
  then show ?thesis
    using SaveCustomLlmClick
    by (auto simp: cursorOk_def addCustomLlm_def addMessageToChat_def Let_def)
next
  case (SendClick v)
  assume a: "cursorOk w"
  show ?thesis
  proof (cases "trim v \<noteq> [] \<and> isOngoing (st w) \<and> \<not> isPaused (st w)")
    case True
    have "cursorOk (w\<lparr>ui := ui w @ [AddMessage (username (st w)) (trim v) False],
                       st := (st w)\<lparr>conversationHistory :=
                          conversationHistory (st w)
                          @ [\<lparr>msgSender = username (st w), msgText = trim v\<rparr>]\<rparr>\<rparr>)"
      using a by (simp add: cursorOk_def)
    then show ?thesis
      using True SendClick by (simp add: handleUserMessage_active cursorOk_continueConversation)
  next
    case False
    then show ?thesis
      using a SendClick by (auto simp: handleUserMessage_def Let_def)
  qed
next
  case (EditUsername n)
  assume "cursorOk w"
  then show ?thesis
    using EditUsername by (simp add: changeUsername_def cursorOk_def split: option.splits)
next
  case (TimerFires tid)
  assume a: "cursorOk w"
  then have b: "cursorOk (w\<lparr>timers := filter (\<lambda>p. fst p \<noteq> tid) (timers w)\<rparr>)"
    by (simp add: cursorOk_def)
  have c: "cursorOk (responseTimerFires sp node w')" if "cursorOk w'" for sp node w'
    using that by (simp add: cursorOk_def responseTimerFires_def Let_def)
  have d: "cursorOk (paceTimerFires w')" if "cursorOk w'" for w'
    using that by (simp add: paceTimerFires_def cursorOk_continueConversation)
  show ?thesis
    using TimerFires a b c d by (simp add: Let_def split: option.splits timer.splits)
next
  case (ProviderSettles cid r)
  assume a: "cursorOk w"
  have c: "cursorOk (providerSettles rq r w')" if "cursorOk w'" for rq w'
    using that by (simp add: cursorOk_def providerSettles_def Let_def)
  have "cursorOk (w\<lparr>calls := filter (\<lambda>p. fst p \<noteq> cid) (calls w)\<rparr>)"
    using a by (simp add: cursorOk_def)
  then show ?thesis
    using ProviderSettles a c by (simp split: option.splits)
qed

lemma cursorOk_run: "cursorOk w \<Longrightarrow> cursorOk (run es w)"
  by (induction es arbitrary: w) (simp_all add: cursorOk_step)

lemma cursorOk_reachable: "cursorOk (run es (init P))"
  by (rule cursorOk_run) (simp add: cursorOk_def init_def)

text \<open>So the scheduler always finds the cursor at a position of a non-empty order.\<close>

lemma reachable_cursor_in_range:
  "speakingOrder (st (run es (init P))) \<noteq> [] \<Longrightarrow>
   currentSpeakerIndex (st (run es (init P))) < length (speakingOrder (st (run es (init P))))"
  using cursorOk_reachable [of es P] by (auto simp: cursorOk_def)

lemma map_nth_from: "map (\<lambda>k. xs ! (c + k)) [0..<length xs - c] = drop c xs"
  by (rule nth_equalityI) simp_all

text \<open>After a participant has joined, the calls of the scheduler yield the rest of the
  prior order from the cursor on, and then the new participant.\<close>

lemma late_joiner_scheduled:
  assumes "speakingOrder s = xs @ [name]" and "currentSpeakerIndex s = c" and "c \<le> length xs"
  shows "fst (nextSpeakers (Suc (length xs - c)) s) = map Some (drop c xs) @ [Some name]"
proof -
  let ?d = "length xs - c"
  have in_range: "currentSpeakerIndex s < length (speakingOrder s)"
    using assms by simp
  have early: "(xs @ [name]) ! ((c + k) mod Suc (length xs)) = xs ! (c + k)" if "k < ?d" for k
  proof -
    have "c + k < length xs" using that by arith
    then show ?thesis by (simp add: nth_append)
  qed
  have last: "(xs @ [name]) ! ((c + ?d) mod Suc (length xs)) = name"
    using assms(3) by simp
  have "fst (nextSpeakers (Suc ?d) s)
          = map (\<lambda>k. Some ((xs @ [name]) ! ((c + k) mod Suc (length xs)))) [0..<Suc ?d]"
    using assms(1,2) by (simp add: nextSpeakers_cycle [OF in_range] del: nextSpeakers.simps upt_Suc)
  also have "\<dots> = map (\<lambda>k. Some (xs ! (c + k))) [0..<?d] @ [Some name]"
    using early last by simp
  also have "map (\<lambda>k. Some (xs ! (c + k))) [0..<?d] = map Some (drop c xs)"
    by (simp add: map_nth_from [symmetric])
  finally show ?thesis .
qed

text \<open>
  Claim C7. At a start the speaking order is a permutation of the selected participants
  (the checked ones followed by the custom ones), produced by the Fisher-Yates loop from
  draws \<open>rnd i\<close> between \<open>0\<close> and \<open>i\<close>, and the cursor is \<open>0\<close> when the first turn is asked
  for. After that no event but another start changes the order except the joining of a
  participant, which appends its name at the end. In every world that the events reach
  from the loaded page, a participant that joins an ongoing conversation is scheduled
  after the rest of the prior order from the cursor on, that is, within one cycle of
  the prior order.
\<close>

theorem speakingOrder_shuffled_then_appended:
  "((\<forall>i. rnd i \<le> i) \<longrightarrow>
      mset (speakingOrder (st (startSetup checked tv rnd w)))
        = mset (checked @ map llmName (customLLMs (st w))) \<and>
      selectedLLMs (st (startSetup checked tv rnd w)) = checked @ map llmName (customLLMs (st w)) \<and>
      currentSpeakerIndex (st (startSetup checked tv rnd w)) = 0 \<and>
      step (StartClick checked tv rnd) w = continueConversation (startSetup checked tv rnd w) \<and>
      speakingOrder (st (step (StartClick checked tv rnd) w))
        = speakingOrder (st (startSetup checked tv rnd w))) \<and>
   (\<not> isStart ev \<longrightarrow>
      speakingOrder (st (step ev w')) = speakingOrder (st w') \<or>
      (\<exists>n k e. ev = SaveCustomLlmClick n k e \<and>
                speakingOrder (st (step ev w')) = speakingOrder (st w') @ [trim n])) \<and>
   (wj = run es (init P) \<and> isOngoing (st wj) \<and> trim n \<noteq> [] \<and> trim k \<noteq> [] \<longrightarrow>
      speakingOrder (st (addCustomLlm n k e wj)) = speakingOrder (st wj) @ [trim n] \<and>
      currentSpeakerIndex (st (addCustomLlm n k e wj)) = currentSpeakerIndex (st wj) \<and>
      length (speakingOrder (st wj)) - currentSpeakerIndex (st wj) \<le> length (speakingOrder (st wj)) \<and>
      fst (nextSpeakers (Suc (length (speakingOrder (st wj)) - currentSpeakerIndex (st wj)))
             (st (addCustomLlm n k e wj)))
        = map Some (drop (currentSpeakerIndex (st wj)) (speakingOrder (st wj))) @ [Some (trim n)])"
proof (intro conjI impI)
  assume r: "\<forall>i. rnd i \<le> i"
  show "mset (speakingOrder (st (startSetup checked tv rnd w)))
        = mset (checked @ map llmName (customLLMs (st w)))"
    by (simp only: startSetup_order mset_shuffle [OF r])
  show "selectedLLMs (st (startSetup checked tv rnd w)) = checked @ map llmName (customLLMs (st w))"
    by (simp add: startSetup_order)
  show "currentSpeakerIndex (st (startSetup checked tv rnd w)) = 0"
    by (simp add: startSetup_order)
  show "step (StartClick checked tv rnd) w = continueConversation (startSetup checked tv rnd w)"
    by (simp add: startConversation_def)
  show "speakingOrder (st (step (StartClick checked tv rnd) w))
        = speakingOrder (st (startSetup checked tv rnd w))"
    by (simp add: startConversation_def)
next
  assume "\<not> isStart ev"
  then show "speakingOrder (st (step ev w')) = speakingOrder (st w') \<or>
      (\<exists>n k e. ev = SaveCustomLlmClick n k e \<and>
                speakingOrder (st (step ev w')) = speakingOrder (st w') @ [trim n])"
    by (cases ev) (simp_all add: step_order del: step.simps)
next
  assume h: "wj = run es (init P) \<and> isOngoing (st wj) \<and> trim n \<noteq> [] \<and> trim k \<noteq> []"
  then have h1: "isOngoing (st wj)" and h2: "trim n \<noteq> []" and h3: "trim k \<noteq> []"
    by blast+
  from h have "cursorOk wj" by (simp add: cursorOk_reachable)
  then have c: "currentSpeakerIndex (st wj) \<le> length (speakingOrder (st wj))"
    by (auto simp: cursorOk_def)
  have a: "addCustomLlm n k e wj =
           wj\<lparr>st := (st wj)\<lparr>customLLMs := customLLMs (st wj)
                             @ [\<lparr>llmName = trim n, llmApiKey = trim k, llmEndpoint = trim e\<rparr>],
                           selectedLLMs := selectedLLMs (st wj) @ [trim n],
                           speakingOrder := speakingOrder (st wj) @ [trim n]\<rparr>,
             ui := ui wj @ [AddMessage (js ''System'') (trim n @ js '' has joined the conversation.'') False],
             llmPersonalities := setProperty (llmPersonalities wj) (trim n) (customPersonality (trim n))\<rparr>"
    by (rule addCustomLlm_ongoing [OF h2 h3 h1])
  show o: "speakingOrder (st (addCustomLlm n k e wj)) = speakingOrder (st wj) @ [trim n]"
    by (simp add: a)
  show i: "currentSpeakerIndex (st (addCustomLlm n k e wj)) = currentSpeakerIndex (st wj)"
    by (simp add: a)
  show "length (speakingOrder (st wj)) - currentSpeakerIndex (st wj) \<le> length (speakingOrder (st wj))"
    by simp
  show "fst (nextSpeakers (Suc (length (speakingOrder (st wj)) - currentSpeakerIndex (st wj)))
             (st (addCustomLlm n k e wj)))
        = map Some (drop (currentSpeakerIndex (st wj)) (speakingOrder (st wj))) @ [Some (trim n)]"
    using o i c by (rule late_joiner_scheduled)
qed

theorem speakingOrder_shuffled_then_appended_witness:
  "(\<forall>i. (\<lambda>i. 0::nat) i \<le> i) \<and>
   speakingOrder (st (startSetup [js ''A'', js ''B'', js ''C''] (js ''cats'') (\<lambda>i. 0) (init Map.empty)))
     = [js ''B'', js ''C'', js ''A''] \<and>
   mset (speakingOrder (st (startSetup [js ''A'', js ''B'', js ''C''] (js ''cats'') (\<lambda>i. 0) (init Map.empty))))
     = mset [js ''A'', js ''B'', js ''C''] \<and>
   \<not> isStart PauseResumeClick \<and>
   speakingOrder (st (step PauseResumeClick twoStarted)) = speakingOrder (st twoStarted) \<and>
   twoStarted = run [StartClick [js ''A'', js ''B''] (js ''cats'') (\<lambda>i. i)] (init Map.empty) \<and>
   isOngoing (st twoStarted) \<and> trim (js ''C'') \<noteq> [] \<and> trim (js ''key'') \<noteq> [] \<and>
   speakingOrder (st twoStarted) = [js ''A'', js ''B''] \<and> currentSpeakerIndex (st twoStarted) = 1 \<and>
   fst (nextSpeakers 2 (st (addCustomLlm (js ''C'') (js ''key'') [] twoStarted))) = [Some (js ''B''), Some (js ''C'')]"
proof -
  have r: "\<forall>i. (\<lambda>i. 0::nat) i \<le> i" by simp
  have s: "speakingOrder (st (startSetup [js ''A'', js ''B'', js ''C''] (js ''cats'') (\<lambda>i. 0) (init Map.empty)))
             = [js ''B'', js ''C'', js ''A'']"
    by code_simp
  have c: "customLLMs (st (init Map.empty)) = []" by (simp add: init_def)
  have o: "isOngoing (st twoStarted)" by code_simp
  have n: "trim (js ''C'') = js ''C''" and k: "trim (js ''key'') \<noteq> []" by code_simp+
  have so: "speakingOrder (st twoStarted) = [js ''A'', js ''B'']"
    and ci: "currentSpeakerIndex (st twoStarted) = 1" by code_simp+
  note t = speakingOrder_shuffled_then_appended
             [where rnd = "\<lambda>i. 0" and checked = "[js ''A'', js ''B'', js ''C'']" and tv = "js ''cats''"
                and w = "init Map.empty" and ev = PauseResumeClick and w' = twoStarted
                and wj = twoStarted and es = "[StartClick [js ''A'', js ''B''] (js ''cats'') (\<lambda>i. i)]"
                and P = Map.empty and n = "js ''C''" and k = "js ''key''" and e = "[]"]
  have p1: "mset (speakingOrder (st (startSetup [js ''A'', js ''B'', js ''C''] (js ''cats'') (\<lambda>i. 0) (init Map.empty))))
              = mset [js ''A'', js ''B'', js ''C'']"
    using t [THEN conjunct1] r c by simp
  have p2: "speakingOrder (st (step PauseResumeClick twoStarted)) = speakingOrder (st twoStarted)"
    using t [THEN conjunct2, THEN conjunct1] by (simp del: step.simps)
  have p3: "fst (nextSpeakers 2 (st (addCustomLlm (js ''C'') (js ''key'') [] twoStarted))) = [Some (js ''B''), Some (js ''C'')]"
    using t [THEN conjunct2, THEN conjunct2] o n k so ci
    by (simp add: twoStarted_def numeral_2_eq_2 del: nextSpeakers.simps run.simps)
  from r s p1 p2 o n k so ci p3 show ?thesis
    by (simp add: twoStarted_def del: run.simps)
qed

section \<open>Turns in flight\<close>

lemma length_filter_removed:
  assumes "map_of xs k = Some v"
  shows "Suc (length (filter (\<lambda>p. fst p \<noteq> k) xs)) \<le> length xs"
proof -
  have "(k, v) \<in> set xs" using assms by (rule map_of_SomeD)
  then have "length (filter (\<lambda>p. fst p \<noteq> k) xs) < length xs"
    by (intro length_filter_less [where x = "(k, v)"]) simp_all
  then show ?thesis by simp
qed

lemma inFlight_continueConversation: "inFlight (continueConversation w) \<le> Suc (inFlight w)"
  by (simp add: inFlight_def continueConversation_def addMessageToChat_def Let_def
      split: option.splits prod.splits)

lemma inFlight_clearResponseTimeout: "inFlight (clearResponseTimeout w) \<le> inFlight w"
  by (simp add: inFlight_def clearResponseTimeout_def split: option.splits)

lemma inFlight_startSetup: "inFlight (startSetup checked tv rnd w) = inFlight w"
  by (simp add: inFlight_def startSetup_def addMessageToChat_def Let_def)

lemma inFlight_addCustomLlm: "inFlight (addCustomLlm n k e w) = inFlight w"
  by (simp add: inFlight_def addCustomLlm_def addMessageToChat_def Let_def)

lemma inFlight_handleUserMessage:
  "inFlight (handleUserMessage v w)
     \<le> inFlight w + (if trim v \<noteq> [] \<and> isOngoing (st w) \<and> \<not> isPaused (st w) then 1 else 0)"
proof (cases "trim v \<noteq> [] \<and> isOngoing (st w) \<and> \<not> isPaused (st w)")
  case True
  let ?w2 = "w\<lparr>ui := ui w @ [AddMessage (username (st w)) (trim v) False],
                st := (st w)\<lparr>conversationHistory :=
                          conversationHistory (st w)
                          @ [\<lparr>msgSender = username (st w), msgText = trim v\<rparr>]\<rparr>\<rparr>"
  have "inFlight (continueConversation ?w2) \<le> Suc (inFlight ?w2)"
    by (rule inFlight_continueConversation)
  moreover have "inFlight ?w2 = inFlight w" by (simp add: inFlight_def)
  ultimately show ?thesis using True by (simp add: handleUserMessage_active)
next
  case False
  then show ?thesis by (auto simp: handleUserMessage_def Let_def)
qed

lemma inFlight_togglePause:
  "inFlight (togglePause w) \<le> inFlight w + (if isPaused (st w) then 1 else 0)"
proof -
  have e: "inFlight (w\<lparr>st := (st w)\<lparr>isPaused := b\<rparr>\<rparr>) = inFlight w" for b
    by (simp add: inFlight_def)
  have "inFlight (clearResponseTimeout (w\<lparr>st := (st w)\<lparr>isPaused := b\<rparr>\<rparr>)) \<le> inFlight w" for b
    using inFlight_clearResponseTimeout [of "w\<lparr>st := (st w)\<lparr>isPaused := b\<rparr>\<rparr>"] e [of b] by simp
  moreover have "inFlight (continueConversation (w\<lparr>st := (st w)\<lparr>isPaused := b\<rparr>\<rparr>)) \<le> Suc (inFlight w)" for b
    using inFlight_continueConversation [of "w\<lparr>st := (st w)\<lparr>isPaused := b\<rparr>\<rparr>"] e [of b] by simp
  ultimately show ?thesis by (simp add: togglePause_def Let_def)
qed

lemma inFlight_restartConversation: "inFlight (restartConversation w) \<le> inFlight w"
  using inFlight_clearResponseTimeout [of w]
  by (simp add: restartConversation_def Let_def inFlight_def)

text \<open>A timer that fires is replaced by at most one provider call or one new response
  timer; a call that settles is replaced by one pace timer.\<close>

lemma inFlight_timerFires: "inFlight (step (TimerFires tid) w) \<le> inFlight w"
proof (cases "map_of (timers w) tid")
  case None
  then show ?thesis by simp
next
  case (Some t)
  let ?w1 = "w\<lparr>timers := filter (\<lambda>p. fst p \<noteq> tid) (timers w)\<rparr>"
  have less: "Suc (inFlight ?w1) \<le> inFlight w"
    using length_filter_removed [OF Some] by (simp add: inFlight_def)
  show ?thesis
  proof (cases t)
    case (ResponseTimer sp node)
    have "inFlight (responseTimerFires sp node ?w1) = Suc (inFlight ?w1)"
      by (simp add: inFlight_def responseTimerFires_def Let_def)
    then show ?thesis using Some ResponseTimer less by simp
  next
    case PaceTimer
    have "inFlight (paceTimerFires ?w1) \<le> Suc (inFlight ?w1)"
      using inFlight_continueConversation [of ?w1] by (simp add: paceTimerFires_def)
    then show ?thesis using Some PaceTimer less by simp
  qed
qed

lemma inFlight_providerSettles: "inFlight (step (ProviderSettles cid r) w) \<le> inFlight w"
proof (cases "map_of (calls w) cid")
  case None
  then show ?thesis by simp
next
  case (Some rq)
  let ?w1 = "w\<lparr>calls := filter (\<lambda>p. fst p \<noteq> cid) (calls w)\<rparr>"
  have less: "Suc (inFlight ?w1) \<le> inFlight w"
    using length_filter_removed [OF Some] by (simp add: inFlight_def)
  have "inFlight (providerSettles rq r ?w1) = Suc (inFlight ?w1)"
    by (simp add: inFlight_def providerSettles_def Let_def)
  then show ?thesis using Some less by simp
qed

lemma inFlight_step: "inFlight (step ev w) \<le> inFlight w + (if startsTurn ev w then 1 else 0)"
proof (cases ev)
  case (StartClick checked tv rnd)
  then show ?thesis
    using inFlight_continueConversation [of "startSetup checked tv rnd w"]
    by (simp add: startConversation_def inFlight_startSetup)
next
  case PauseResumeClick
  then show ?thesis using inFlight_togglePause [of w] by simp
next
  case RestartClick
  then show ?thesis using inFlight_restartConversation [of w] by simp
next
  case (SaveCustomLlmClick n k e)
  then show ?thesis by (simp add: inFlight_addCustomLlm)
next
  case (SendClick v)
  then show ?thesis using inFlight_handleUserMessage [of v w] by simp
next
  case (EditUsername n)
  then show ?thesis by (simp add: changeUsername_def inFlight_def split: option.splits)
next
  case (TimerFires tid)
  then show ?thesis using inFlight_timerFires [of tid w] by (simp del: step.simps)
next
  case (ProviderSettles cid r)
  then show ?thesis using inFlight_providerSettles [of cid r w] by (simp del: step.simps)
qed

lemma inFlight_run: "inFlight (run es w) \<le> inFlight w + triggers es w"
proof (induction es arbitrary: w)
  case Nil
  then show ?case by simp
next
  case (Cons ev es)
  have "inFlight (run es (step ev w)) \<le> inFlight (step ev w) + triggers es (step ev w)"
    by (rule Cons.IH)
  also have "\<dots> \<le> inFlight w + (if startsTurn ev w then 1 else 0) + triggers es (step ev w)"
    using inFlight_step [of ev w] by simp
  finally show ?case by (simp split: if_splits)
qed

text \<open>A pass of the server makes a call of the service only after the generations of all
  its earlier calls have settled.\<close>

lemma processLlms_calls_bound:
  "length (callsOf (processLlms chatId msg uname ls envs)) \<le> Suc (length envs)"
  by (induction chatId msg uname ls envs rule: processLlms.induct)
     (auto simp: callsOf_append split: gen_outcome.splits save_outcome.splits)

lemma handleUserMessage_calls_bound:
  "length (callsOf (ChatManager_handleUserMessage chats userId m p envs)) \<le> Suc (length envs)"
  using processLlms_calls_bound
  by (simp add: ChatManager_handleUserMessage_def Let_def split: option.splits)

lemma outstanding_le_one: "outstanding ps \<le> 1"
proof (cases ps)
  case (fields chats userId m p envs)
  then show ?thesis
    using handleUserMessage_calls_bound [of chats userId m p envs] by simp
qed

lemma outstanding_sum: "sum_list (map outstanding passes) \<le> length passes"
proof (induction passes)
  case Nil
  then show ?case by simp
next
  case (Cons ps passes)
  then show ?case using outstanding_le_one [of ps] by simp
qed

text \<open>
  Claim C1, as the code has it. Neither program has a guard that keeps turns apart. On
  the client every trigger (a start, a resume, an accepted user message) starts at most
  one turn and every turn that ends starts at most one successor, so turns are
  serialised only along the chain of one trigger: in every world that the events reach
  from the loaded page, the number of turns in flight, and so the number of provider
  calls in flight, is at most the number of triggers so far. On the server every user
  message to an active chat starts a pass of its own, a pass has at most one call of the
  service that has not settled, and so any number of passes have together at most as
  many calls in flight as there are passes.
\<close>

theorem turns_in_flight_bounded_by_triggers:
  "inFlight (run es (init P)) \<le> triggers es (init P) \<and>
   length (calls (run es (init P))) \<le> triggers es (init P) \<and>
   outstanding (chats, userId, m, p, envs) \<le> 1 \<and>
   sum_list (map outstanding passes) \<le> length passes"
proof -
  have "inFlight (run es (init P)) \<le> inFlight (init P) + triggers es (init P)"
    by (rule inFlight_run)
  moreover have "inFlight (init P) = 0"
    by (simp add: inFlight_def init_def)
  moreover have "length (calls (run es (init P))) \<le> inFlight (run es (init P))"
    by (simp add: inFlight_def)
  ultimately show ?thesis
    using outstanding_le_one [of "(chats, userId, m, p, envs)"] outstanding_sum [of passes]
    by (simp del: outstanding.simps)
qed

text \<open>The bounds are reached. On the client, a start, a pause and a resume are two triggers
  and leave one turn in flight; a start and a user message are two triggers and leave
  two provider calls in flight. On the server, two user messages to the active chat make
  two passes, each with its first call awaited.\<close>

theorem turns_in_flight_bounded_by_triggers_witness:
  "triggers [StartClick [js ''A'', js ''B''] (js ''cats'') (\<lambda>i. i), PauseResumeClick, PauseResumeClick]
     (init Map.empty) = 2 \<and>
   inFlight (run [StartClick [js ''A'', js ''B''] (js ''cats'') (\<lambda>i. i), PauseResumeClick,
                  PauseResumeClick] (init Map.empty)) \<le> 2 \<and>
   triggers [StartClick [js ''A'', js ''B''] (js ''cats'') (\<lambda>i. i), SendClick (js ''hi''),
             TimerFires 1, TimerFires 2] (init Map.empty) = 2 \<and>
   length (calls (run [StartClick [js ''A'', js ''B''] (js ''cats'') (\<lambda>i. i), SendClick (js ''hi''),
                       TimerFires 1, TimerFires 2] (init Map.empty))) = 2 \<and>
   sum_list (map outstanding
     [(sampleChats Active, js ''u1'', sampleMessage, Some (js ''Ann''), []),
      (sampleChats Active, js ''u1'', sampleMessage, Some (js ''Ann''), [])]) = 2"
proof -
  let ?e1 = "[StartClick [js ''A'', js ''B''] (js ''cats'') (\<lambda>i. i), PauseResumeClick, PauseResumeClick]"
  let ?e2 = "[StartClick [js ''A'', js ''B''] (js ''cats'') (\<lambda>i. i), SendClick (js ''hi''),
              TimerFires 1, TimerFires 2]"
  let ?ps = "[(sampleChats Active, js ''u1'', sampleMessage, Some (js ''Ann''), []),
              (sampleChats Active, js ''u1'', sampleMessage, Some (js ''Ann''), [])]"
  have t1: "triggers ?e1 (init Map.empty) = 2" by code_simp
  have t2: "triggers ?e2 (init Map.empty) = 2" by code_simp
  have c2: "length (calls (run ?e2 (init Map.empty))) = 2" by code_simp
  have o: "sum_list (map outstanding ?ps) = 2" by code_simp
  have b1: "inFlight (run ?e1 (init Map.empty)) \<le> 2"
    using turns_in_flight_bounded_by_triggers [of ?e1 Map.empty] t1
    by (simp del: run.simps triggers.simps outstanding.simps js_Cons)
  from t1 b1 t2 c2 o show ?thesis by blast
qed

text \<open>Two participants are started and the user sends a message while the first turn is
  pending. Both response timers fire before either provider call settles: the calls for
  \<open>A\<close> and for \<open>B\<close> are awaited at the same time.\<close>

theorem one_call_in_flight_counterexample:
  "map (\<lambda>c. (fst c, reqLlm (snd c))) (calls overlapping) = [(3, js ''A''), (4, js ''B'')] \<and>
   length (calls overlapping) = 2 \<and>
   isOngoing (st overlapping) \<and> \<not> isPaused (st overlapping)"
  by code_simp

end
